theory Spec2Isabelle
  imports Main
begin

section \<open>Python values and exceptions\<close>

text \<open>
  The exceptions that the modelled functions of \<^verbatim>\<open>f4pga/flows/common.py\<close> and
  \<^verbatim>\<open>f4pga/flows/modules/yosys.py\<close> can raise. A function that may raise returns
  \<open>py_error + 'a\<close>, with \<open>Inl\<close> carrying the exception.
\<close>

datatype py_error =
    IndexError
  | TypeError
  | ValueError
  | NameError string
  | ModuleRuntimeException string
  | OtherError string

section \<open>Dependency qualifiers (common.py)\<close>

text \<open>
  \<^verbatim>\<open>decompose_depname\<close> reads \<^verbatim>\<open>name[len(name) - 1]\<close>: on the empty string the index is
  \<open>-1\<close>, which Python rejects with IndexError. The qualifier is the source's own string
  tag: \<^verbatim>\<open>"req"\<close>, \<^verbatim>\<open>"maybe"\<close> or \<^verbatim>\<open>"demand"\<close>.
\<close>

definition decompose_depname :: "string \<Rightarrow> py_error + (string \<times> string)" where
  "decompose_depname name =
     (if name = [] then Inl IndexError
      else
        let specchar = last name;
            spec = (if specchar = CHR ''?'' then ''maybe''
                    else if specchar = CHR ''!'' then ''demand''
                    else ''req'')
        in if spec \<noteq> ''req'' then Inr (butlast name, spec) else Inr (name, spec))"

text \<open>
  \<^verbatim>\<open>with_qualifier\<close> calls \<^verbatim>\<open>decompose_depname\<close> only inside the branch taken, and
  falls off the end (returning \<^verbatim>\<open>None\<close>) for any other tag.
\<close>

definition with_qualifier :: "string \<Rightarrow> string \<Rightarrow> py_error + string option" where
  "with_qualifier name q =
     (if q = ''req'' then
        (case decompose_depname name of Inl e \<Rightarrow> Inl e | Inr (b, _) \<Rightarrow> Inr (Some b))
      else if q = ''maybe'' then
        (case decompose_depname name of Inl e \<Rightarrow> Inl e | Inr (b, _) \<Rightarrow> Inr (Some (b @ ''?'')))
      else if q = ''demand'' then
        (case decompose_depname name of Inl e \<Rightarrow> Inl e | Inr (b, _) \<Rightarrow> Inr (Some (b @ ''!'')))
      else Inr None)"

section \<open>Configuration values (common.py)\<close>

text \<open>
  The values that flow configurations hold: strings, lists, dictionaries and numbers. A
  dictionary is an association list in insertion order, as Python keeps it; its keys are
  the hashable values of the model. A string is a list of characters, and offsets count
  characters, as Python's do.
\<close>

fun bind_result :: "py_error + 'a \<Rightarrow> ('a \<Rightarrow> py_error + 'b) \<Rightarrow> py_error + 'b" where
  "bind_result (Inl e) f = Inl e"
| "bind_result (Inr x) f = f x"

datatype key = KStr string | KNum int

datatype val = Str string | Lst "val list" | Dct "(key \<times> val) list" | Num int

type_synonym dict = "(key \<times> val) list"

text \<open>\<^verbatim>\<open>d.get(k)\<close>: \<open>None\<close> when the key is absent.\<close>

definition dict_get :: "dict \<Rightarrow> key \<Rightarrow> val option" where
  "dict_get d k = map_of d k"

text \<open>\<^verbatim>\<open>d[k] = v\<close>: an existing key keeps its place, a new key goes to the end.\<close>

fun dict_set :: "('k \<times> 'v) list \<Rightarrow> 'k \<Rightarrow> 'v \<Rightarrow> ('k \<times> 'v) list" where
  "dict_set [] k v = [(k, v)]"
| "dict_set ((k', v') # d) k v = (if k' = k then (k', v) # d else (k', v') # dict_set d k v)"

text \<open>\<^verbatim>\<open>dict(pairs)\<close>: the pairs are stored one after the other.\<close>

definition dict_of_items :: "(key \<times> val) list \<Rightarrow> dict" where
  "dict_of_items ps = foldl (\<lambda>d (k, v). dict_set d k v) [] ps"

text \<open>Python's truth value of an object, as \<^verbatim>\<open>not v\<close> tests it.\<close>

fun truthy :: "val \<Rightarrow> bool" where
  "truthy (Str s) = (s \<noteq> [])"
| "truthy (Lst xs) = (xs \<noteq> [])"
| "truthy (Dct d) = (d \<noteq> [])"
| "truthy (Num n) = (n \<noteq> 0)"

text \<open>
  \<^verbatim>\<open>a + b\<close> and the slices \<^verbatim>\<open>s[:n]\<close>, \<^verbatim>\<open>s[n:]\<close> (with \<open>n \<ge> 0\<close>; a slice beyond the
  end is cut short, it does not raise). Adding a string to a list raises TypeError.
\<close>

fun py_add :: "val \<Rightarrow> val \<Rightarrow> py_error + val" where
  "py_add (Str a) (Str b) = Inr (Str (a @ b))"
| "py_add (Lst a) (Lst b) = Inr (Lst (a @ b))"
| "py_add (Num a) (Num b) = Inr (Num (a + b))"
| "py_add _ _ = Inl TypeError"

fun slice_to :: "nat \<Rightarrow> val \<Rightarrow> py_error + val" where
  "slice_to n (Str s) = Inr (Str (take n s))"
| "slice_to n (Lst xs) = Inr (Lst (take n xs))"
| "slice_to n _ = Inl TypeError"

fun slice_from :: "nat \<Rightarrow> val \<Rightarrow> py_error + val" where
  "slice_from n (Str s) = Inr (Str (drop n s))"
| "slice_from n (Lst xs) = Inr (Lst (drop n xs))"
| "slice_from n _ = Inl TypeError"

section \<open>Template resolution (ResolutionEnv.resolve)\<close>

text \<open>
  The pattern \<^verbatim>\<open>\$\{([^${}]*)\}\<close>. The class excludes the closing brace, so a match at a
  position is the text \<^verbatim>\<open>${\<close>, the longest run of characters other than \<^verbatim>\<open>$\<close>, \<^verbatim>\<open>{\<close>
  and \<^verbatim>\<open>}\<close>, and a \<^verbatim>\<open>}\<close> right after the run; no shorter run can be followed by one.
  \<open>match_at\<close> gives group 1 of a match that starts at the head of the string.
\<close>

definition name_char :: "char \<Rightarrow> bool" where
  "name_char c = (c \<noteq> CHR ''$'' \<and> c \<noteq> CHR ''{'' \<and> c \<noteq> CHR ''}'')"

fun match_at :: "string \<Rightarrow> string option" where
  "match_at (c1 # c2 # rest) =
     (if c1 = CHR ''$'' \<and> c2 = CHR ''{'' then
        (case dropWhile name_char rest of
           [] \<Rightarrow> None
         | c3 # _ \<Rightarrow> (if c3 = CHR ''}'' then Some (takeWhile name_char rest) else None))
      else None)"
| "match_at _ = None"

text \<open>
  \<^verbatim>\<open>re.finditer\<close>: the matches from left to right, none overlapping another. Each is
  (start, end, group 1); \<open>i\<close> is the offset of the text still to scan.
\<close>

fun finditer :: "nat \<Rightarrow> string \<Rightarrow> (nat \<times> nat \<times> string) list" where
  "finditer i [] = []"
| "finditer i (c # cs) =
     (case match_at (c # cs) of
        Some g \<Rightarrow>
          (i, i + length g + 3, g) # finditer (i + length g + 3) (drop (length g + 2) cs)
      | None \<Rightarrow> finditer (Suc i) cs)"

text \<open>\<^verbatim>\<open>s[: span[0]] + v + s[span[1] :]\<close>, evaluated from the left.\<close>

definition splice :: "val \<Rightarrow> nat \<Rightarrow> nat \<Rightarrow> val \<Rightarrow> py_error + val" where
  "splice s a b v =
     bind_result (slice_to a s) (\<lambda>l.
     bind_result (py_add l v) (\<lambda>lv.
     bind_result (slice_from b s) (\<lambda>r. py_add lv r)))"

text \<open>The comprehension \<^verbatim>\<open>[s[: span[0]] + ve + s[span[1] :] for ve in v]\<close>.\<close>

fun splice_each :: "val \<Rightarrow> nat \<Rightarrow> nat \<Rightarrow> val list \<Rightarrow> py_error + val list" where
  "splice_each s a b [] = Inr []"
| "splice_each s a b (ve # ves) =
     bind_result (splice s a b ve) (\<lambda>x.
     bind_result (splice_each s a b ves) (\<lambda>xs. Inr (x # xs)))"

text \<open>
  The two type tests on the value found: a string is spliced in, a list turns \<open>s\<close> into
  a list, and a value of any other type leaves \<open>s\<close> as it is.
\<close>

fun substitute :: "val \<Rightarrow> nat \<Rightarrow> nat \<Rightarrow> val \<Rightarrow> py_error + val" where
  "substitute s a b (Str t) = splice s a b (Str t)"
| "substitute s a b (Lst ves) = bind_result (splice_each s a b ves) (\<lambda>ns. Inr (Lst ns))"
| "substitute s a b _ = Inr s"

text \<open>\<^verbatim>\<open>match_str.replace("?", "")\<close> removes every question mark of the name.\<close>

definition lookup_key :: "string \<Rightarrow> string" where
  "lookup_key g = filter (\<lambda>c. c \<noteq> CHR ''?'') g"

text \<open>
  One turn of the loop over the matches. A key that is absent and a value that is falsy
  take the same path: with \<open>final\<close> the value becomes the empty string, without it the
  match is skipped.
\<close>

definition resolve_match :: "dict \<Rightarrow> bool \<Rightarrow> val \<Rightarrow> nat \<times> nat \<times> string \<Rightarrow> py_error + val" where
  "resolve_match vals final s m =
     (case m of (a, b, g) \<Rightarrow>
        (case dict_get vals (KStr (lookup_key g)) of
           None \<Rightarrow> (if final then substitute s a b (Str []) else Inr s)
         | Some w \<Rightarrow>
             (if \<not> truthy w then (if final then substitute s a b (Str []) else Inr s)
              else substitute s a b w)))"

fun resolve_loop :: "dict \<Rightarrow> bool \<Rightarrow> val \<Rightarrow> (nat \<times> nat \<times> string) list \<Rightarrow> py_error + val" where
  "resolve_loop vals final s [] = Inr s"
| "resolve_loop vals final s (m # ms) =
     bind_result (resolve_match vals final s m) (\<lambda>s'. resolve_loop vals final s' ms)"

text \<open>The string branch: the matches are taken from the last to the first.\<close>

definition resolve_str :: "dict \<Rightarrow> string \<Rightarrow> bool \<Rightarrow> py_error + val" where
  "resolve_str vals s final = resolve_loop vals final (Str s) (rev (finditer 0 s))"

text \<open>
  \<^verbatim>\<open>resolve(s, final)\<close> on the dictionary \<open>vals\<close> of the environment. The list and the
  dictionary branches call \<^verbatim>\<open>self.resolve\<close> with one argument, so their elements are
  resolved with the default \<^verbatim>\<open>final=False\<close>. A value of any other type is returned
  as it is.
\<close>

fun resolve :: "dict \<Rightarrow> val \<Rightarrow> bool \<Rightarrow> py_error + val"
  and resolve_list :: "dict \<Rightarrow> val list \<Rightarrow> py_error + val list"
  and resolve_items :: "dict \<Rightarrow> (key \<times> val) list \<Rightarrow> py_error + (key \<times> val) list" where
  "resolve vals (Str s) final = resolve_str vals s final"
| "resolve vals (Lst xs) final = bind_result (resolve_list vals xs) (\<lambda>ys. Inr (Lst ys))"
| "resolve vals (Dct d) final =
     bind_result (resolve_items vals d) (\<lambda>ps. Inr (Dct (dict_of_items ps)))"
| "resolve vals (Num n) final = Inr (Num n)"
| "resolve_list vals [] = Inr []"
| "resolve_list vals (x # xs) =
     bind_result (resolve vals x False) (\<lambda>y.
     bind_result (resolve_list vals xs) (\<lambda>ys. Inr (y # ys)))"
| "resolve_items vals [] = Inr []"
| "resolve_items vals ((k, v) # d) =
     bind_result (resolve vals v False) (\<lambda>w.
     bind_result (resolve_items vals d) (\<lambda>ps. Inr ((k, w) # ps)))"

section \<open>Merging values (ResolutionEnv.add_values)\<close>

text \<open>
  \<^verbatim>\<open>d.update(x)\<close>. A dictionary argument is stored entry by entry. Any other argument
  is iterated, and each element must be a sequence of length two (ValueError otherwise)
  whose first member is hashable (TypeError otherwise); a string iterates over its
  one-character strings and a number is not iterable at all. The dictionary is changed in
  place, so the entries stored before an exception stay: the result is the dictionary
  together with the pending exception, if any.
\<close>

fun key_of :: "val \<Rightarrow> key option" where
  "key_of (Str s) = Some (KStr s)"
| "key_of (Num n) = Some (KNum n)"
| "key_of _ = None"

fun val_of_key :: "key \<Rightarrow> val" where
  "val_of_key (KStr s) = Str s"
| "val_of_key (KNum n) = Num n"

fun pair_of :: "val \<Rightarrow> py_error + key \<times> val" where
  "pair_of (Str t) = (case t of [c1, c2] \<Rightarrow> Inr (KStr [c1], Str [c2]) | _ \<Rightarrow> Inl ValueError)"
| "pair_of (Lst xs) =
     (case xs of
        [a, b] \<Rightarrow> (case key_of a of None \<Rightarrow> Inl TypeError | Some k \<Rightarrow> Inr (k, b))
      | _ \<Rightarrow> Inl ValueError)"
| "pair_of (Dct d) =
     (case d of [(k1, _), (k2, _)] \<Rightarrow> Inr (k1, val_of_key k2) | _ \<Rightarrow> Inl ValueError)"
| "pair_of (Num n) = Inl TypeError"

fun update_pairs :: "dict \<Rightarrow> val list \<Rightarrow> dict \<times> py_error option" where
  "update_pairs d [] = (d, None)"
| "update_pairs d (x # xs) =
     (case pair_of x of
        Inl e \<Rightarrow> (d, Some e)
      | Inr (k, v) \<Rightarrow> update_pairs (dict_set d k v) xs)"

fun dict_update :: "dict \<Rightarrow> val \<Rightarrow> dict \<times> py_error option" where
  "dict_update d (Dct m) = (foldl (\<lambda>d (k, v). dict_set d k v) d m, None)"
| "dict_update d (Lst xs) = update_pairs d xs"
| "dict_update d (Str s) = update_pairs d (map (\<lambda>c. Str [c]) s)"
| "dict_update d (Num n) = (d, Some TypeError)"

text \<open>
  The body of the loop of \<^verbatim>\<open>add_values\<close> for one entry \<open>(k, v)\<close>: when \<open>k\<close> is bound
  to a dictionary, that dictionary is updated with the resolved \<open>v\<close>; otherwise \<open>k\<close>
  is bound to the resolved \<open>v\<close>. \<^verbatim>\<open>resolve\<close> is called with \<^verbatim>\<open>final\<close> left at its
  default.
\<close>

definition add_value :: "dict \<Rightarrow> key \<Rightarrow> val \<Rightarrow> dict \<times> py_error option" where
  "add_value vals k v =
     (case dict_get vals k of
        Some (Dct d) \<Rightarrow>
          (case resolve vals v False of
             Inl e \<Rightarrow> (vals, Some e)
           | Inr r \<Rightarrow> (case dict_update d r of (d', err) \<Rightarrow> (dict_set vals k (Dct d'), err)))
      | _ \<Rightarrow>
          (case resolve vals v False of
             Inl e \<Rightarrow> (vals, Some e)
           | Inr r \<Rightarrow> (dict_set vals k r, None)))"

text \<open>
  \<^verbatim>\<open>add_values\<close> changes \<^verbatim>\<open>self.values\<close> in place and stops at the first exception:
  the result is the dictionary as it then is, with the exception, if any.
\<close>

fun add_values :: "dict \<Rightarrow> (key \<times> val) list \<Rightarrow> dict \<times> py_error option" where
  "add_values vals [] = (vals, None)"
| "add_values vals ((k, v) # items) =
     (case add_value vals k v of
        (vals', Some e) \<Rightarrow> (vals', Some e)
      | (vals', None) \<Rightarrow> add_values vals' items)"

section \<open>ResolutionEnv objects and the dictionaries they refer to\<close>

text \<open>
  A \<^verbatim>\<open>ResolutionEnv\<close> holds in \<^verbatim>\<open>self.values\<close> (the field \<open>env_values\<close>) a
  reference to a dictionary, not a dictionary: the store
  maps addresses to the dictionaries that live there. The default of the parameter of
  \<^verbatim>\<open>__init__(self, values={})\<close> is evaluated once, when the class body is executed; it is
  the dictionary at the address \<open>default_values\<close>, and \<open>module_store\<close> is the store
  right after the module is loaded. The constructor stores the reference it is given, or
  the reference to that one default dictionary.
\<close>

type_synonym store = "nat \<Rightarrow> dict option"

record ResolutionEnv =
  env_values :: nat

definition default_values :: nat where
  "default_values = 0"

definition module_store :: store where
  "module_store = (\<lambda>_. None)(default_values \<mapsto> [])"

definition ResolutionEnv_init :: "nat option \<Rightarrow> ResolutionEnv" where
  "ResolutionEnv_init arg =
     \<lparr>env_values = (case arg of None \<Rightarrow> default_values | Some a \<Rightarrow> a)\<rparr>"

text \<open>
  The two methods on an object in a store. An address without a dictionary cannot be
  reached by the program; the model answers it with an error.
\<close>

definition env_resolve :: "store \<Rightarrow> ResolutionEnv \<Rightarrow> val \<Rightarrow> bool \<Rightarrow> py_error + val" where
  "env_resolve st env s final =
     (case st (env_values env) of
        None \<Rightarrow> Inl (OtherError ''no dictionary at this address'')
      | Some d \<Rightarrow> resolve d s final)"

definition env_add_values ::
  "store \<Rightarrow> ResolutionEnv \<Rightarrow> (key \<times> val) list \<Rightarrow> store \<times> py_error option" where
  "env_add_values st env items =
     (case st (env_values env) of
        None \<Rightarrow> (st, Some (OtherError ''no dictionary at this address''))
      | Some d \<Rightarrow> (case add_values d items of (d', err) \<Rightarrow> (st(env_values env \<mapsto> d'), err)))"

section \<open>Running a process (sub)\<close>





section \<open>The yosys module (modules/yosys.py)\<close>

text \<open>
  \<^verbatim>\<open>pathlib\<close> is a parameter: the constructor, the operator \<^verbatim>\<open>/\<close>, \<^verbatim>\<open>.parent\<close> and
  \<^verbatim>\<open>str\<close>. The context gives \<^verbatim>\<open>ctx.takes.build_dir\<close> (an optional take, so possibly
  \<^verbatim>\<open>None\<close>), \<^verbatim>\<open>ctx.values.top\<close> and \<^verbatim>\<open>ctx.values.device\<close>.
\<close>

record 'p pathlib =
  Path :: "string \<Rightarrow> 'p"
  joinpath :: "'p \<Rightarrow> string \<Rightarrow> 'p"
  parent :: "'p \<Rightarrow> 'p"
  path_str :: "'p \<Rightarrow> string"

record module_context =
  takes_build_dir :: "string option"
  values_top :: string
  values_device :: string

text \<open>
  The loop over \<^verbatim>\<open>self.extra_products\<close>. The module imports only \<^verbatim>\<open>Module\<close> and
  \<^verbatim>\<open>ModuleContext\<close> from \<^verbatim>\<open>f4pga.flows.module\<close> and defines no
  \<^verbatim>\<open>ModuleRuntimeException\<close> itself, so the \<^verbatim>\<open>raise\<close> statement of the \<^verbatim>\<open>maybe\<close> branch
  fails while it evaluates that name: what is raised is NameError, before the message is
  built. A product with the \<^verbatim>\<open>demand\<close> tag is passed over.
\<close>

fun map_extras ::
  "'p pathlib \<Rightarrow> module_context \<Rightarrow> 'p \<Rightarrow> (string \<times> string) list \<Rightarrow> string list \<Rightarrow>
     py_error + (string \<times> string) list" where
  "map_extras P ctx top_path mapping [] = Inr mapping"
| "map_extras P ctx top_path mapping (extra # rest) =
     (case decompose_depname extra of
        Inl e \<Rightarrow> Inl e
      | Inr (name, spec) \<Rightarrow>
          if spec = ''maybe'' then Inl (NameError ''ModuleRuntimeException'')
          else if spec = ''req'' then
            map_extras P ctx top_path
              (dict_set mapping name
                 (path_str P (joinpath P (parent P top_path)
                    (values_device ctx @ ''_'' @ name @ ''.'' @ name))))
              rest
          else map_extras P ctx top_path mapping rest)"

definition map_io ::
  "'p pathlib \<Rightarrow> string list \<Rightarrow> module_context \<Rightarrow> py_error + (string \<times> string) list" where
  "map_io P extra_products ctx =
     (let top_path = (case takes_build_dir ctx of
                        None \<Rightarrow> Path P (values_top ctx)
                      | Some bd \<Rightarrow>
                          if bd \<noteq> [] then joinpath P (Path P bd) (values_top ctx)
                          else Path P (values_top ctx));
          mapping = [(''eblif'', path_str P top_path @ ''.eblif''),
                     (''fasm_extra'', path_str P top_path @ ''_fasm_extra.fasm''),
                     (''json'', path_str P top_path @ ''.json''),
                     (''synth_json'', path_str P top_path @ ''_io.json'')]
      in map_extras P ctx top_path mapping extra_products)"

section \<open>Notions of the specification\<close>



text \<open>The lookup key as the specification words it: the name without a trailing marker.\<close>

definition strip_soft_marker :: "string \<Rightarrow> string" where
  "strip_soft_marker g = (if g \<noteq> [] \<and> last g = CHR ''?'' then butlast g else g)"



section \<open>Verified properties\<close>

subsection \<open>Dependency qualifiers\<close>

lemma decompose_plain:
  "b \<noteq> [] \<Longrightarrow> last b \<noteq> CHR ''?'' \<Longrightarrow> last b \<noteq> CHR ''!'' \<Longrightarrow>
     decompose_depname b = Inr (b, ''req'')"
  by (simp add: decompose_depname_def)

lemma decompose_cases:
  "decompose_depname name = Inr (b, q) \<Longrightarrow>
     (q = ''maybe'' \<and> name = b @ ''?'') \<or> (q = ''demand'' \<and> name = b @ ''!'') \<or>
     (q = ''req'' \<and> name = b \<and> last b \<noteq> CHR ''?'' \<and> last b \<noteq> CHR ''!'')"
  by (auto simp: decompose_depname_def Let_def split: if_splits) (metis append_butlast_last_id)+

text \<open>
  C1, as stated: for every name, decomposing and recomposing gives the name back. It fails
  on a name with two trailing markers: \<^verbatim>\<open>decompose_depname("clk??")\<close> is
  \<^verbatim>\<open>("clk?", "maybe")\<close>, and \<^verbatim>\<open>with_qualifier("clk?", "maybe")\<close> first strips the marker
  that its argument already carries, giving \<^verbatim>\<open>"clk?"\<close>.
\<close>

theorem C1_roundtrip_counterexample:
  "decompose_depname ''clk??'' = Inr (''clk?'', ''maybe'') \<and>
   with_qualifier ''clk?'' ''maybe'' = Inr (Some ''clk?'') \<and>
   with_qualifier ''clk?'' ''maybe'' \<noteq> Inr (Some ''clk??'')"
  by (simp add: decompose_depname_def with_qualifier_def)

text \<open>
  C1, amended: for every base name \<open>b\<close> that is not empty and does not itself end in a
  marker, (i) every name that decomposes to \<open>(b, q)\<close> is given back by
  \<^verbatim>\<open>with_qualifier(b, q)\<close>, and (ii) for each of the three qualifiers,
  \<^verbatim>\<open>with_qualifier(b, q)\<close> is a name that decomposes to \<open>(b, q)\<close>; and the three
  examples of the specification hold.
\<close>

theorem C1_roundtrip:
  "b \<noteq> [] \<Longrightarrow> last b \<notin> {CHR ''?'', CHR ''!''} \<Longrightarrow>
     (\<forall>name q. decompose_depname name = Inr (b, q) \<longrightarrow> with_qualifier b q = Inr (Some name)) \<and>
     (\<forall>q \<in> {''req'', ''maybe'', ''demand''}.
        \<exists>n. with_qualifier b q = Inr (Some n) \<and> decompose_depname n = Inr (b, q)) \<and>
     decompose_depname ''clk'' = Inr (''clk'', ''req'') \<and>
     decompose_depname ''clk?'' = Inr (''clk'', ''maybe'') \<and>
     decompose_depname ''clk!'' = Inr (''clk'', ''demand'')"
proof (intro conjI allI impI ballI)
  fix name q
  assume b: "b \<noteq> []" "last b \<notin> {CHR ''?'', CHR ''!''}"
    and d: "decompose_depname name = Inr (b, q)"
  from b have p: "decompose_depname b = Inr (b, ''req'')"
    by (simp add: decompose_plain)
  from decompose_cases [OF d] show "with_qualifier b q = Inr (Some name)"
    by (auto simp: with_qualifier_def p)
next
  fix q
  assume b: "b \<noteq> []" "last b \<notin> {CHR ''?'', CHR ''!''}"
    and q: "q \<in> {''req'', ''maybe'', ''demand''}"
  from b have p: "decompose_depname b = Inr (b, ''req'')"
    by (simp add: decompose_plain)
  from q show "\<exists>n. with_qualifier b q = Inr (Some n) \<and> decompose_depname n = Inr (b, q)"
    by (auto simp: with_qualifier_def p) (simp_all add: decompose_depname_def)
qed (simp_all add: decompose_depname_def)

theorem C1_roundtrip_witness:
  "''clk'' \<noteq> [] \<and> last ''clk'' \<notin> {CHR ''?'', CHR ''!''} \<and>
   decompose_depname ''clk?'' = Inr (''clk'', ''maybe'') \<and>
   with_qualifier ''clk'' ''maybe'' = Inr (Some ''clk?'')"
proof -
  have h1: "''clk'' \<noteq> []" and h2: "last ''clk'' \<notin> {CHR ''?'', CHR ''!''}"
    by simp_all
  have d: "decompose_depname ''clk?'' = Inr (''clk'', ''maybe'')"
    by (simp add: decompose_depname_def)
  from C1_roundtrip [OF h1 h2]
  have "\<forall>name q. decompose_depname name = Inr (''clk'', q) \<longrightarrow>
          with_qualifier ''clk'' q = Inr (Some name)"
    by (rule conjunct1)
  with d have "with_qualifier ''clk'' ''maybe'' = Inr (Some ''clk?'')"
    by blast
  with h1 h2 d show ?thesis by blast
qed

subsection \<open>Scanning for placeholders\<close>

lemma match_at_placeholder:
  "\<forall>c \<in> set name. name_char c \<Longrightarrow> match_at (''${'' @ name @ ''}'' @ post) = Some name"
  by (simp add: name_char_def)

lemma match_at_extend:
  assumes "match_at (c # cs) = None"
  shows "match_at ((c # cs) @ CHR ''$'' # w) = None"
proof (cases cs)
  case Nil
  then show ?thesis by simp
next
  case (Cons c2 rest)
  show ?thesis
  proof (cases "c = CHR ''$'' \<and> c2 = CHR ''{''")
    case False
    then show ?thesis using Cons by auto
  next
    case True
    show ?thesis
    proof (cases "dropWhile name_char rest")
      case Nil
      then have "dropWhile name_char (rest @ CHR ''$'' # w) = CHR ''$'' # w"
        by (simp add: dropWhile_append name_char_def)
      then show ?thesis using Cons True by simp
    next
      case (Cons c3 r3)
      then have "c3 \<in> set rest" "\<not> name_char c3"
        by (metis list.set_intros(1) set_dropWhileD, metis hd_dropWhile list.sel(1) list.distinct(1))
      then have "dropWhile name_char (rest @ CHR ''$'' # w) = dropWhile name_char rest @ CHR ''$'' # w"
        by simp
      then show ?thesis using assms \<open>cs = c2 # rest\<close> True Cons by (simp split: if_splits)
    qed
  qed
qed

lemma finditer_shift:
  "finditer (i + k) s = map (\<lambda>(a, b, g). (a + k, b + k, g)) (finditer i s)"
proof (induction i s rule: finditer.induct)
  case (1 i)
  then show ?case by simp
next
  case (2 i c cs)
  show ?case
  proof (cases "match_at (c # cs)")
    case None
    with 2(1) show ?thesis by simp
  next
    case (Some g)
    with 2(2) [of g] show ?thesis by (simp add: add.commute add.left_commute)
  qed
qed

lemma finditer_empty_any: "finditer i s = [] \<Longrightarrow> finditer j s = []"
  using finditer_shift [of 0 i s] finditer_shift [of 0 j s] by simp

lemma finditer_prefix:
  "finditer i pre = [] \<Longrightarrow>
     finditer i (pre @ CHR ''$'' # w) = finditer (i + length pre) (CHR ''$'' # w)"
proof (induction pre arbitrary: i)
  case Nil
  then show ?case by simp
next
  case (Cons c cs)
  from Cons.prems have m: "match_at (c # cs) = None" and r: "finditer (Suc i) cs = []"
    by (auto split: option.splits)
  have "match_at ((c # cs) @ CHR ''$'' # w) = None"
    by (rule match_at_extend [OF m])
  then have "finditer i ((c # cs) @ CHR ''$'' # w) = finditer (Suc i) (cs @ CHR ''$'' # w)"
    by simp
  with Cons.IH [OF r] show ?case by simp
qed

lemma finditer_single:
  assumes n: "\<forall>c \<in> set name. name_char c"
    and pre: "finditer 0 pre = []" and post: "finditer 0 post = []"
  shows "finditer 0 (pre @ ''${'' @ name @ ''}'' @ post) =
           [(length pre, length pre + length name + 3, name)]"
proof -
  have m: "match_at (''${'' @ name @ ''}'' @ post) = Some name"
    by (rule match_at_placeholder [OF n])
  have "finditer 0 (pre @ ''${'' @ name @ ''}'' @ post) =
          finditer (length pre) (''${'' @ name @ ''}'' @ post)"
    using finditer_prefix [OF pre, of "''{'' @ name @ ''}'' @ post"] by simp
  also have "\<dots> = (length pre, length pre + length name + 3, name) #
                    finditer (length pre + length name + 3) post"
    using m by simp
  also have "finditer (length pre + length name + 3) post = []"
    by (rule finditer_empty_any [OF post])
  finally show ?thesis .
qed

subsection \<open>Substituting at the matches\<close>

lemma bind_result_Inr: "bind_result r Inr = r"
  by (cases r) simp_all

lemma splice_placeholder:
  "splice (Str (pre @ ''${'' @ name @ ''}'' @ post)) (length pre) (length pre + length name + 3)
     (Str t) = Inr (Str (pre @ t @ post))"
  by (simp add: splice_def numeral_3_eq_3)

lemma splice_each_placeholder:
  "splice_each (Str (pre @ ''${'' @ name @ ''}'' @ post)) (length pre)
     (length pre + length name + 3) (map Str ys) = Inr (map (\<lambda>y. Str (pre @ y @ post)) ys)"
  by (induction ys) (simp_all add: splice_placeholder del: append.simps)

lemma resolve_str_single:
  assumes "\<forall>c \<in> set name. name_char c" "finditer 0 pre = []" "finditer 0 post = []"
  shows "resolve_str vals (pre @ ''${'' @ name @ ''}'' @ post) final =
           resolve_match vals final (Str (pre @ ''${'' @ name @ ''}'' @ post))
             (length pre, length pre + length name + 3, name)"
  unfolding resolve_str_def finditer_single [OF assms]
  by (simp add: bind_result_Inr)










subsection \<open>Environments that resolve alike\<close>

lemma splice_mid:
  "splice (Str (pre @ mid @ post)) (length pre) (length pre + length mid) v =
     bind_result (py_add (Str pre) v) (\<lambda>lv. py_add lv (Str post))"
  by (simp add: splice_def)

lemma splice_each_mid:
  "splice_each (Str (pre @ mid @ post)) (length pre) (length pre + length mid) ves =
     splice_each (Str (pre @ post)) (length pre) (length pre) ves"
proof (induction ves)
  case Nil
  then show ?case by simp
next
  case (Cons ve ves)
  have "splice (Str (pre @ mid @ post)) (length pre) (length pre + length mid) ve =
          splice (Str (pre @ post)) (length pre) (length pre) ve"
    using splice_mid [of pre mid post ve] splice_mid [of pre "[]" post ve] by simp
  with Cons show ?case by simp
qed

lemma resolve_match_same:
  assumes "dict_get vals1 k = Some v" "\<not> truthy v" "dict_get vals2 k = None"
    and "\<forall>j. j \<noteq> k \<longrightarrow> dict_get vals1 j = dict_get vals2 j"
  shows "resolve_match vals1 final s m = resolve_match vals2 final s m"
proof -
  obtain a b g where m: "m = (a, b, g)" by (cases m)
  show ?thesis
  proof (cases "KStr (lookup_key g) = k")
    case True
    with assms show ?thesis by (simp add: resolve_match_def m)
  next
    case False
    with assms(4) have "dict_get vals1 (KStr (lookup_key g)) = dict_get vals2 (KStr (lookup_key g))"
      by simp
    then show ?thesis by (simp add: resolve_match_def m)
  qed
qed

lemma resolve_loop_same:
  assumes "dict_get vals1 k = Some v" "\<not> truthy v" "dict_get vals2 k = None"
    and "\<forall>j. j \<noteq> k \<longrightarrow> dict_get vals1 j = dict_get vals2 j"
  shows "resolve_loop vals1 final s ms = resolve_loop vals2 final s ms"
proof (induction ms arbitrary: s)
  case Nil
  then show ?case by simp
next
  case (Cons m ms)
  have "resolve_match vals1 final s m = resolve_match vals2 final s m"
    by (rule resolve_match_same [OF assms])
  with Cons show ?case by simp
qed

lemma resolve_same:
  assumes "dict_get vals1 k = Some v" "\<not> truthy v" "dict_get vals2 k = None"
    and "\<forall>j. j \<noteq> k \<longrightarrow> dict_get vals1 j = dict_get vals2 j"
  shows "resolve vals1 s final = resolve vals2 s final"
    and "resolve_list vals1 xs = resolve_list vals2 xs"
    and "resolve_items vals1 d = resolve_items vals2 d"
  using assms
proof (induction vals1 s final and vals1 xs and vals1 d
       rule: resolve_resolve_list_resolve_items.induct)
  case (1 vals s final)
  then show ?case
    using resolve_loop_same [of vals k v vals2 final "Str s"] by (simp add: resolve_str_def)
qed simp_all


subsection \<open>Placeholders that are not bound\<close>




subsection \<open>A placeholder bound to a sequence\<close>

text \<open>
  C4, as stated, includes the sequence of no strings (N = 0), for which the result would
  be the empty sequence. The empty list is falsy, so \<^verbatim>\<open>resolve\<close> treats the name as not
  bound and returns the string itself.
\<close>

theorem C4_empty_sequence_counterexample:
  "dict_get [(KStr ''b'', Lst [])] (KStr ''b'') = Some (Lst (map Str [])) \<and>
   resolve [(KStr ''b'', Lst [])] (Str ''a${b}c'') False = Inr (Str ''a${b}c'') \<and>
   resolve [(KStr ''b'', Lst [])] (Str ''a${b}c'') False \<noteq>
     Inr (Lst (map (\<lambda>y. Str (''a'' @ y @ ''c'')) []))"
  by code_simp

text \<open>
  C4, amended: for every string \<open>pre ${name} post\<close> with exactly this one placeholder,
  whose name is bound to a sequence of N strings with N at least 1, \<^verbatim>\<open>resolve\<close> returns
  the sequence of the N strings \<open>pre y post\<close>, one for each element \<open>y\<close> and in their
  order, whatever \<^verbatim>\<open>final\<close> is; \<^verbatim>\<open>resolve("a${b}c")\<close> with \<open>b\<close> bound to
  \<^verbatim>\<open>["X", "Y"]\<close> is \<^verbatim>\<open>["aXc", "aYc"]\<close>.
\<close>

theorem C4_sequence_expansion:
  assumes "\<forall>c \<in> set name. name_char c" and "finditer 0 pre = []" and "finditer 0 post = []"
    and "dict_get vals (KStr (lookup_key name)) = Some (Lst (map Str ys))" and "ys \<noteq> []"
  shows "resolve vals (Str (pre @ ''${'' @ name @ ''}'' @ post)) final =
           Inr (Lst (map (\<lambda>y. Str (pre @ y @ post)) ys)) \<and>
         resolve [(KStr ''b'', Lst [Str ''X'', Str ''Y''])] (Str ''a${b}c'') False =
           Inr (Lst [Str ''aXc'', Str ''aYc''])"
proof
  have "resolve vals (Str (pre @ ''${'' @ name @ ''}'' @ post)) final =
          resolve_match vals final (Str (pre @ ''${'' @ name @ ''}'' @ post))
            (length pre, length pre + length name + 3, name)"
    using resolve_str_single [OF assms(1-3)] by simp
  also have "\<dots> = Inr (Lst (map (\<lambda>y. Str (pre @ y @ post)) ys))"
    using assms(4,5) by (simp add: resolve_match_def splice_each_placeholder del: append.simps)
  finally show "resolve vals (Str (pre @ ''${'' @ name @ ''}'' @ post)) final =
                  Inr (Lst (map (\<lambda>y. Str (pre @ y @ post)) ys))" .
next
  show "resolve [(KStr ''b'', Lst [Str ''X'', Str ''Y''])] (Str ''a${b}c'') False =
          Inr (Lst [Str ''aXc'', Str ''aYc''])"
    by code_simp
qed

theorem C4_sequence_expansion_witness:
  "finditer 0 ''out/'' = [] \<and> finditer 0 ''.log'' = [] \<and>
   dict_get [(KStr ''dev'', Lst (map Str [''a'', ''b'', ''c'']))] (KStr (lookup_key ''dev'')) =
     Some (Lst (map Str [''a'', ''b'', ''c''])) \<and>
   [''a'', ''b'', ''c''] \<noteq> [] \<and>
   resolve [(KStr ''dev'', Lst (map Str [''a'', ''b'', ''c'']))] (Str (''out/'' @ ''${'' @ ''dev'' @ ''}'' @ ''.log'')) True =
     Inr (Lst (map (\<lambda>y. Str (''out/'' @ y @ ''.log'')) [''a'', ''b'', ''c'']))"
proof -
  have h1: "\<forall>c \<in> set ''dev''. name_char c" by code_simp
  have h2: "finditer 0 ''out/'' = []" by code_simp
  have h3: "finditer 0 ''.log'' = []" by code_simp
  have h4: "dict_get [(KStr ''dev'', Lst (map Str [''a'', ''b'', ''c'']))] (KStr (lookup_key ''dev'')) =
     Some (Lst (map Str [''a'', ''b'', ''c'']))" by code_simp
  have h5: "[''a'', ''b'', ''c''] \<noteq> []" by simp
  from C4_sequence_expansion [OF h1 h2 h3 h4 h5, of True]
  have "resolve [(KStr ''dev'', Lst (map Str [''a'', ''b'', ''c'']))] (Str (''out/'' @ ''${'' @ ''dev'' @ ''}'' @ ''.log'')) True =
     Inr (Lst (map (\<lambda>y. Str (''out/'' @ y @ ''.log'')) [''a'', ''b'', ''c'']))"
    by (rule conjunct1)
  with h1 h2 h3 h4 h5 show ?thesis by blast
qed

subsection \<open>Sequences and mappings under final\<close>

text \<open>
  C5: the elements of a list (or the values of a dictionary) would be resolved with the
  \<^verbatim>\<open>final\<close> of the call. The code resolves them with \<^verbatim>\<open>final=False\<close> whatever the
  caller asked: \<^verbatim>\<open>resolve(["a${b}c"], final=True)\<close> on the empty environment returns
  \<^verbatim>\<open>["a${b}c"]\<close>, while the same string at top level becomes \<^verbatim>\<open>"ac"\<close>.
\<close>

theorem C5_final_not_passed_on:
  "resolve vals (Lst xs) True = resolve vals (Lst xs) False \<and>
   resolve vals (Dct d) True = resolve vals (Dct d) False \<and>
   resolve [] (Lst [Str ''a${b}c'']) True = Inr (Lst [Str ''a${b}c'']) \<and>
   resolve [] (Str ''a${b}c'') True = Inr (Str ''ac'')"
proof (intro conjI)
  show "resolve [] (Lst [Str ''a${b}c'']) True = Inr (Lst [Str ''a${b}c''])"
    by code_simp
  show "resolve [] (Str ''a${b}c'') True = Inr (Str ''ac'')"
    by code_simp
qed simp_all

lemma lookup_key_marker: "lookup_key (x @ ''?'') = lookup_key x"
  by (simp add: lookup_key_def)

lemma lookup_key_plain: "CHR ''?'' \<notin> set x \<Longrightarrow> lookup_key x = x"
  unfolding lookup_key_def by (induction x) auto

lemma substitute_mid:
  assumes "(\<exists>t. v = Str t) \<or> (\<exists>ys. v = Lst ys)"
  shows "substitute (Str (pre @ mid @ post)) (length pre) (length pre + length mid) v =
           substitute (Str (pre @ post)) (length pre) (length pre) v"
proof -
  have e: "splice (Str (pre @ mid @ post)) (length pre) (length pre + length mid) w =
             splice (Str (pre @ post)) (length pre) (length pre) w" for w
    using splice_mid [of pre mid post w] splice_mid [of pre "[]" post w] by simp
  from assms show ?thesis
  proof
    assume "\<exists>t. v = Str t"
    then show ?thesis using e by auto
  next
    assume "\<exists>ys. v = Lst ys"
    then show ?thesis using splice_each_mid [of pre mid post] by auto
  qed
qed

lemma resolve_single_bound:
  assumes "\<forall>c \<in> set name. name_char c" and "finditer 0 pre = []" and "finditer 0 post = []"
    and k: "dict_get vals (KStr (lookup_key name)) = Some v" and "truthy v"
    and sl: "(\<exists>t. v = Str t) \<or> (\<exists>ys. v = Lst ys)"
  shows "resolve vals (Str (pre @ ''${'' @ name @ ''}'' @ post)) final =
           substitute (Str (pre @ post)) (length pre) (length pre) v"
proof -
  define M where "M = ''${'' @ name @ ''}''"
  have lM: "length pre + length name + 3 = length pre + length M"
    by (simp add: M_def)
  have s: "pre @ ''${'' @ name @ ''}'' @ post = pre @ M @ post"
    by (simp add: M_def)
  have t: "truthy v = True"
    using assms(5) by simp
  have "resolve vals (Str (pre @ ''${'' @ name @ ''}'' @ post)) final =
          resolve_match vals final (Str (pre @ ''${'' @ name @ ''}'' @ post))
            (length pre, length pre + length name + 3, name)"
    using resolve_str_single [OF assms(1-3)] by simp
  also have "\<dots> = substitute (Str (pre @ M @ post)) (length pre) (length pre + length M) v"
    unfolding s
    by (simp only: resolve_match_def prod.case k option.case t not_True_eq_False if_False lM)
  also have "\<dots> = substitute (Str (pre @ post)) (length pre) (length pre) v"
    by (rule substitute_mid [OF sl])
  finally show ?thesis .
qed

subsection \<open>The soft-reference marker\<close>

text \<open>
  C6, as stated: only a trailing \<^verbatim>\<open>?\<close> is stripped and the rest of the name is looked
  up as it is. For the name \<^verbatim>\<open>a?b\<close> that key is \<^verbatim>\<open>a?b\<close>, which the environment below
  does not bind; the code removes every \<^verbatim>\<open>?\<close>, looks up \<^verbatim>\<open>ab\<close> and substitutes its
  value.
\<close>

theorem C6_lookup_key_counterexample:
  "strip_soft_marker ''a?b'' = ''a?b'' \<and>
   lookup_key ''a?b'' \<noteq> strip_soft_marker ''a?b'' \<and>
   dict_get [(KStr ''ab'', Str ''X'')] (KStr ''a?b'') = None \<and>
   resolve [(KStr ''ab'', Str ''X'')] (Str ''${a?b}'') False = Inr (Str ''X'')"
  by code_simp

text \<open>
  C6, amended: the lookup key is the name without any of its question marks, so a name
  without one is looked up as it is and a trailing marker is dropped; and in a string
  with this one placeholder, when \<open>x\<close> is bound to a non-empty string or a non-empty
  list, \<^verbatim>\<open>${x?}\<close> resolves to the same result as \<^verbatim>\<open>${x}\<close>.
\<close>

theorem C6_soft_marker:
  assumes "\<forall>c \<in> set x. name_char c" and "finditer 0 pre = []" and "finditer 0 post = []"
    and "dict_get vals (KStr (lookup_key x)) = Some v" and "truthy v"
    and "(\<exists>t. v = Str t) \<or> (\<exists>ys. v = Lst ys)"
  shows "lookup_key (x @ ''?'') = lookup_key x \<and>
         (CHR ''?'' \<notin> set x \<longrightarrow> lookup_key x = x) \<and>
         resolve vals (Str (pre @ ''${'' @ (x @ ''?'') @ ''}'' @ post)) final =
           resolve vals (Str (pre @ ''${'' @ x @ ''}'' @ post)) final"
proof (intro conjI impI)
  show "lookup_key (x @ ''?'') = lookup_key x" by (rule lookup_key_marker)
next
  assume "CHR ''?'' \<notin> set x"
  then show "lookup_key x = x" by (rule lookup_key_plain)
next
  from assms(1) have c1: "\<forall>c \<in> set (x @ ''?''). name_char c"
    by (simp add: name_char_def)
  have k: "dict_get vals (KStr (lookup_key (x @ ''?''))) = Some v"
    using assms(4) by (simp add: lookup_key_marker)
  have "resolve vals (Str (pre @ ''${'' @ (x @ ''?'') @ ''}'' @ post)) final =
          substitute (Str (pre @ post)) (length pre) (length pre) v"
    by (rule resolve_single_bound [OF c1 assms(2,3) k assms(5,6)])
  also have "\<dots> = resolve vals (Str (pre @ ''${'' @ x @ ''}'' @ post)) final"
    by (rule resolve_single_bound [OF assms, symmetric])
  finally show "resolve vals (Str (pre @ ''${'' @ (x @ ''?'') @ ''}'' @ post)) final =
           resolve vals (Str (pre @ ''${'' @ x @ ''}'' @ post)) final" .
qed

theorem C6_soft_marker_witness:
  "finditer 0 ''build/'' = [] \<and> finditer 0 ''.v'' = [] \<and>
   dict_get [(KStr ''top'', Str ''cpu'')] (KStr (lookup_key ''top'')) = Some (Str ''cpu'') \<and>
   truthy (Str ''cpu'') \<and>
   resolve [(KStr ''top'', Str ''cpu'')] (Str (''build/'' @ ''${'' @ (''top'' @ ''?'') @ ''}'' @ ''.v'')) False =
     resolve [(KStr ''top'', Str ''cpu'')] (Str (''build/'' @ ''${'' @ ''top'' @ ''}'' @ ''.v'')) False"
proof -
  have h1: "\<forall>c \<in> set ''top''. name_char c" by code_simp
  have h2: "finditer 0 ''build/'' = []" by code_simp
  have h3: "finditer 0 ''.v'' = []" by code_simp
  have h4: "dict_get [(KStr ''top'', Str ''cpu'')] (KStr (lookup_key ''top'')) = Some (Str ''cpu'')"
    by code_simp
  have h5: "truthy (Str ''cpu'')" by simp
  have h6: "(\<exists>t. Str ''cpu'' = Str t) \<or> (\<exists>ys. Str ''cpu'' = Lst ys)" by simp
  from C6_soft_marker [OF h1 h2 h3 h4 h5 h6, of False]
  have "resolve [(KStr ''top'', Str ''cpu'')] (Str (''build/'' @ ''${'' @ (''top'' @ ''?'') @ ''}'' @ ''.v'')) False =
     resolve [(KStr ''top'', Str ''cpu'')] (Str (''build/'' @ ''${'' @ ''top'' @ ''}'' @ ''.v'')) False"
    by blast
  with h1 h2 h3 h4 h5 h6 show ?thesis by blast
qed

subsection \<open>Names bound to a falsy value\<close>

text \<open>
  C10: an environment that binds \<open>k\<close> to a falsy value and an environment that differs
  from it only in not binding \<open>k\<close> resolve every input to the same result, for both
  values of \<^verbatim>\<open>final\<close>. With \<open>b\<close> bound to the empty string or to the empty list,
  \<^verbatim>\<open>resolve("a${b}c")\<close> is \<^verbatim>\<open>"a${b}c"\<close>, and \<^verbatim>\<open>"ac"\<close> with \<^verbatim>\<open>final=True\<close>.
\<close>

theorem C10_falsy_as_unbound:
  assumes "dict_get vals1 k = Some v" and "\<not> truthy v" and "dict_get vals2 k = None"
    and "\<forall>j. j \<noteq> k \<longrightarrow> dict_get vals1 j = dict_get vals2 j"
  shows "resolve vals1 s final = resolve vals2 s final \<and>
         resolve [(KStr ''b'', Str [])] (Str ''a${b}c'') False = Inr (Str ''a${b}c'') \<and>
         resolve [(KStr ''b'', Lst [])] (Str ''a${b}c'') False = Inr (Str ''a${b}c'') \<and>
         resolve [(KStr ''b'', Str [])] (Str ''a${b}c'') True = Inr (Str ''ac'') \<and>
         resolve [(KStr ''b'', Lst [])] (Str ''a${b}c'') True = Inr (Str ''ac'')"
proof (intro conjI)
  show "resolve vals1 s final = resolve vals2 s final"
    by (rule resolve_same(1) [OF assms])
qed code_simp+

theorem C10_falsy_as_unbound_witness:
  "dict_get [(KStr ''a'', Str ''1''), (KStr ''b'', Lst [])] (KStr ''b'') = Some (Lst []) \<and>
   \<not> truthy (Lst []) \<and>
   dict_get [(KStr ''a'', Str ''1'')] (KStr ''b'') = None \<and>
   resolve [(KStr ''a'', Str ''1''), (KStr ''b'', Lst [])] (Str ''${a}-${b}'') False =
     resolve [(KStr ''a'', Str ''1'')] (Str ''${a}-${b}'') False"
proof -
  have h1: "dict_get [(KStr ''a'', Str ''1''), (KStr ''b'', Lst [])] (KStr ''b'') = Some (Lst [])"
    by (simp add: dict_get_def)
  have h2: "\<not> truthy (Lst [])" by simp
  have h3: "dict_get [(KStr ''a'', Str ''1'')] (KStr ''b'') = None"
    by (simp add: dict_get_def)
  have h4: "\<forall>j. j \<noteq> KStr ''b'' \<longrightarrow>
      dict_get [(KStr ''a'', Str ''1''), (KStr ''b'', Lst [])] j =
      dict_get [(KStr ''a'', Str ''1'')] j"
    by (simp add: dict_get_def)
  from C10_falsy_as_unbound [OF h1 h2 h3 h4, of "Str ''${a}-${b}''" False]
  have "resolve [(KStr ''a'', Str ''1''), (KStr ''b'', Lst [])] (Str ''${a}-${b}'') False =
     resolve [(KStr ''a'', Str ''1'')] (Str ''${a}-${b}'') False"
    by (rule conjunct1)
  with h1 h2 h3 h4 show ?thesis by blast
qed

subsection \<open>Dictionaries as association lists\<close>











subsection \<open>Merging into a key bound to a mapping\<close>





subsection \<open>The process wrapper\<close>



subsection \<open>Extra products of the yosys module\<close>

text \<open>
  C8: an extra product with the \<^verbatim>\<open>?\<close> qualifier would make \<^verbatim>\<open>map_io\<close> raise the
  configuration error that names the product. What \<^verbatim>\<open>map_io\<close> raises for
  \<^verbatim>\<open>extra_products = ["foo?"]\<close>, and for any list that begins with such a product, is
  NameError for the name \<^verbatim>\<open>ModuleRuntimeException\<close>, never that exception with a message.
  A required product \<^verbatim>\<open>foo\<close> is mapped to the file \<^verbatim>\<open>{device}_foo.foo\<close> beside the top
  file.
\<close>

theorem C8_optional_extra_product:
  "map_io P [''foo?''] ctx = Inl (NameError ''ModuleRuntimeException'') \<and>
   (\<forall>msg. map_io P [''foo?''] ctx \<noteq> Inl (ModuleRuntimeException msg)) \<and>
   map_io P ((name @ ''?'') # rest) ctx = Inl (NameError ''ModuleRuntimeException'') \<and>
   map_io P [''bar'', ''foo?'', ''baz''] ctx = Inl (NameError ''ModuleRuntimeException'') \<and>
   (\<exists>mapping. map_io P [''foo''] ctx = Inr mapping \<and>
      map_of mapping ''foo'' =
        Some (path_str P (joinpath P
          (parent P (case takes_build_dir ctx of
                       None \<Rightarrow> Path P (values_top ctx)
                     | Some bd \<Rightarrow> if bd \<noteq> [] then joinpath P (Path P bd) (values_top ctx)
                                 else Path P (values_top ctx)))
          (values_device ctx @ ''_'' @ ''foo'' @ ''.'' @ ''foo''))))"
proof (intro conjI allI)
  have opt: "decompose_depname (n @ ''?'') = Inr (n, ''maybe'')" for n
    by (simp add: decompose_depname_def Let_def)
  have req: "decompose_depname ''bar'' = Inr (''bar'', ''req'')"
    "decompose_depname ''foo'' = Inr (''foo'', ''req'')"
    by (simp_all add: decompose_depname_def Let_def)
  show any: "map_io P ((name @ ''?'') # rest) ctx = Inl (NameError ''ModuleRuntimeException'')"
    for name rest
    by (simp add: map_io_def Let_def opt del: append.simps)
  from any [of "''foo''" "[]"]
  show foo: "map_io P [''foo?''] ctx = Inl (NameError ''ModuleRuntimeException'')"
    by simp
  then show "map_io P [''foo?''] ctx \<noteq> Inl (ModuleRuntimeException msg)" for msg
    by simp
  from opt [of "''foo''"] req(1)
  show "map_io P [''bar'', ''foo?'', ''baz''] ctx = Inl (NameError ''ModuleRuntimeException'')"
    by (simp add: map_io_def Let_def)
  from req(2)
  show "\<exists>mapping. map_io P [''foo''] ctx = Inr mapping \<and>
      map_of mapping ''foo'' =
        Some (path_str P (joinpath P
          (parent P (case takes_build_dir ctx of
                       None \<Rightarrow> Path P (values_top ctx)
                     | Some bd \<Rightarrow> if bd \<noteq> [] then joinpath P (Path P bd) (values_top ctx)
                                 else Path P (values_top ctx)))
          (values_device ctx @ ''_'' @ ''foo'' @ ''.'' @ ''foo'')))"
    by (simp add: map_io_def Let_def)
qed

subsection \<open>Environments constructed without a mapping\<close>

text \<open>
  C9: two environments constructed without an argument refer to the same dictionary. After
  \<^verbatim>\<open>add_values\<close> on the first, the second resolves against the dictionary that the first
  one's \<^verbatim>\<open>add_values\<close> produced: right after the module is loaded \<^verbatim>\<open>${x}\<close> resolves to
  itself, and after the first environment has added \<open>x = "1"\<close> the second resolves it
  to \<^verbatim>\<open>"1"\<close>.
\<close>

theorem C9_default_environments_share:
  assumes "e1 = ResolutionEnv_init None" and "e2 = ResolutionEnv_init None"
    and "st default_values = Some d"
    and "env_add_values st e1 items = (st', err)"
  shows "env_values e1 = env_values e2 \<and>
         st' (env_values e2) = Some (fst (add_values d items)) \<and>
         env_resolve st' e2 s final = resolve (fst (add_values d items)) s final \<and>
         env_resolve module_store (ResolutionEnv_init None) (Str ''${x}'') False =
           Inr (Str ''${x}'') \<and>
         (case env_add_values module_store (ResolutionEnv_init None) [(KStr ''x'', Str ''1'')] of
            (st1, _) \<Rightarrow> env_resolve st1 (ResolutionEnv_init None) (Str ''${x}'') False) =
           Inr (Str ''1'')"
proof (intro conjI)
  show "env_values e1 = env_values e2"
    using assms(1,2) by simp
  show s: "st' (env_values e2) = Some (fst (add_values d items))"
    using assms by (auto simp: env_add_values_def ResolutionEnv_init_def split: prod.splits)
  show "env_resolve st' e2 s final = resolve (fst (add_values d items)) s final"
    using s by (simp add: env_resolve_def)
  have r0: "resolve [] (Str ''${x}'') False = Inr (Str ''${x}'')"
    by code_simp
  have a: "add_values [] [(KStr ''x'', Str ''1'')] = ([(KStr ''x'', Str ''1'')], None)"
    by code_simp
  have r1: "resolve [(KStr ''x'', Str ''1'')] (Str ''${x}'') False = Inr (Str ''1'')"
    by code_simp
  show "env_resolve module_store (ResolutionEnv_init None) (Str ''${x}'') False =
           Inr (Str ''${x}'')"
    by (simp add: env_resolve_def module_store_def ResolutionEnv_init_def r0 del: resolve.simps)
  show "(case env_add_values module_store (ResolutionEnv_init None) [(KStr ''x'', Str ''1'')] of
            (st1, _) \<Rightarrow> env_resolve st1 (ResolutionEnv_init None) (Str ''${x}'') False) =
           Inr (Str ''1'')"
    by (simp add: env_resolve_def env_add_values_def module_store_def ResolutionEnv_init_def a r1
          del: resolve.simps add_values.simps)
qed

theorem C9_default_environments_share_witness:
  "module_store default_values = Some [] \<and>
   env_resolve
     (fst (env_add_values module_store (ResolutionEnv_init None) [(KStr ''x'', Str ''1'')]))
     (ResolutionEnv_init None) (Str ''${x}'') False = Inr (Str ''1'')"
proof -
  let ?items = "[(KStr ''x'', Str ''1'')]"
  let ?r = "env_add_values module_store (ResolutionEnv_init None) ?items"
  have h3: "module_store default_values = Some []"
    by (simp add: module_store_def)
  have h4: "?r = (fst ?r, snd ?r)"
    by simp
  have a: "add_values [] ?items = ([(KStr ''x'', Str ''1'')], None)"
    by code_simp
  have r1: "resolve [(KStr ''x'', Str ''1'')] (Str ''${x}'') False = Inr (Str ''1'')"
    by code_simp
  from C9_default_environments_share [OF refl refl h3 h4, of "Str ''${x}''" False]
  have "env_resolve (fst ?r) (ResolutionEnv_init None) (Str ''${x}'') False =
          resolve (fst (add_values [] ?items)) (Str ''${x}'') False"
    by blast
  with h3 show ?thesis
    by (simp add: a r1 del: resolve.simps add_values.simps)
qed


end
